theory Spec2Isabelle
  imports Main "HOL-Library.FSet" "HOL-Library.AList"
begin

section \<open>Data model\<close>

text \<open>
  The embedding follows the Go package \<^verbatim>\<open>multiminer\<close>: the driver registry
  (\<^verbatim>\<open>registry.go\<close>), the device manager and the connection pool.

  \<^item> A \<^verbatim>\<open>Session\<close> is an interface value used as a map key and compared by
    identity; it is a handle, modelled as a natural number.
  \<^item> Every \<^verbatim>\<open>time.Time\<close> in the pool comes from \<^verbatim>\<open>time.Now()\<close>, which records
    the monotonic clock, and \<^verbatim>\<open>Sub\<close> compares those readings. A time is modelled
    by that reading in nanoseconds, an integer that every operation reading the clock
    receives as the argument \<open>now\<close>; \<^verbatim>\<open>now.Sub(createdAt)\<close> is the difference,
    a \<^verbatim>\<open>time.Duration\<close> in nanoseconds like \<^verbatim>\<open>idleTime\<close>.
  \<^item> The Go \<^verbatim>\<open>error\<close> interface is the datatype \<open>error\<close>; a nil error is \<open>None\<close>.
  \<^item> Mutexes are not modelled: every operation runs atomically, one after another.
\<close>

type_synonym MinerID = string
type_synonym session = nat
type_synonym time = int
type_synonym duration = int

datatype error =
  MultiMinerError (Code: string) (Message: string) (Details: string) (Cause: "error option")
  | ForeignError string

definition ErrCodeNotFound :: string where "ErrCodeNotFound = ''NOT_FOUND''"
definition ErrCodeDriverNotFound :: string where "ErrCodeDriverNotFound = ''DRIVER_NOT_FOUND''"
definition ErrCodeDeviceError :: string where "ErrCodeDeviceError = ''DEVICE_ERROR''"

definition ErrNotFound :: error where
  "ErrNotFound = MultiMinerError ErrCodeNotFound ''device not found'' '''' None"

definition NewDriverNotFoundError :: error where
  "NewDriverNotFoundError = MultiMinerError ErrCodeDriverNotFound ''no suitable driver found'' '''' None"

definition NewDeviceError :: "string \<Rightarrow> string \<Rightarrow> error option \<Rightarrow> error" where
  "NewDeviceError message details cause = MultiMinerError ErrCodeDeviceError message details cause"

record Endpoint =
  Address :: string

text \<open>
  A driver is the interface \<^verbatim>\<open>Driver\<close>. \<open>Detect\<close> returns the Go pair
  \<^verbatim>\<open>(bool, error)\<close>. \<open>Open\<close> returns \<^verbatim>\<open>(Session, error)\<close>; the pool looks at the
  session only when the error is nil, so the result is a sum. What a driver answers
  is up to the device behind it: the extra argument of \<open>Open\<close> is the number of
  \<^verbatim>\<open>Open\<close> calls made so far, so that successive calls may answer differently.
\<close>

record Driver =
  Name :: string
  Detect :: "Endpoint \<Rightarrow> bool \<times> error option"
  Open :: "Endpoint \<Rightarrow> nat \<Rightarrow> error + session"

record Device =
  ID :: MinerID
  Endpoint :: Endpoint
  Driver :: Driver
  DriverName :: string

text \<open>
  What the pool does to the outside: the number of \<^verbatim>\<open>Driver.Open\<close> calls made
  and the sessions on which \<^verbatim>\<open>Close()\<close> has been called (its error is dropped by
  every caller in the pool).
\<close>

record world =
  opens :: nat
  closed :: "session set"

record DevicePool =
  device :: Device
  idle :: "session list"
  active :: "session fset"
  createdAt :: "session \<rightharpoonup> time"
  maxIdle :: int
  maxOpen :: int
  idleTime :: duration

text \<open>
  The top-level pool. Its map from device id to sub-pool is an association list
  with one entry per key (kept so by \<open>AList.update\<close>); Go iterates the map in no
  fixed order, and nothing below depends on the order. The fields holding the
  shared limits carry the prefix \<open>pool\<close> to keep them apart from the sub-pool's.
\<close>

record ConnectionPool =
  pools :: "(MinerID \<times> DevicePool) list"
  poolMaxIdle :: int
  poolMaxOpen :: int
  poolIdleTime :: duration

record PoolStats =
  ActiveConnections :: int
  IdleConnections :: int
  MaxOpen :: int
  MaxIdle :: int

record Registry =
  drivers :: "Driver list"

record Manager =
  reg :: Registry
  dev :: "MinerID \<rightharpoonup> Device"
  pool :: ConnectionPool

section \<open>Registry\<close>

definition NewRegistry :: Registry where
  "NewRegistry = \<lparr>drivers = []\<rparr>"

definition Register :: "Driver \<Rightarrow> Registry \<Rightarrow> Registry" where
  "Register d r = r\<lparr>drivers := drivers r @ [d]\<rparr>"

text \<open>
  The loop of \<^verbatim>\<open>Registry.Detect\<close>. Besides the result it returns the drivers whose
  \<^verbatim>\<open>Detect\<close> was invoked, in the order of the calls.
\<close>

fun detectLoop :: "Driver list \<Rightarrow> Endpoint \<Rightarrow> (error + Driver) \<times> Driver list" where
  "detectLoop [] ep = (Inl NewDriverNotFoundError, [])"
| "detectLoop (d # ds) ep =
     (case Detect d ep of
        (ok, Some err) \<Rightarrow> (Inl err, [d])
      | (ok, None) \<Rightarrow>
          if ok then (Inr d, [d])
          else (case detectLoop ds ep of (r, probed) \<Rightarrow> (r, d # probed)))"

definition RegistryDetect :: "Registry \<Rightarrow> Endpoint \<Rightarrow> error + Driver" where
  "RegistryDetect r ep = fst (detectLoop (drivers r) ep)"

definition RegistryProbed :: "Registry \<Rightarrow> Endpoint \<Rightarrow> Driver list" where
  "RegistryProbed r ep = snd (detectLoop (drivers r) ep)"

section \<open>Per-device pool\<close>

text \<open>\<^verbatim>\<open>now.Sub(createdAt)\<close> on two readings of the clock.\<close>

definition Sub :: "time \<Rightarrow> time \<Rightarrow> duration" where
  "Sub now c = now - c"

definition getSession :: "time \<Rightarrow> DevicePool \<Rightarrow> world \<Rightarrow> (error + session) \<times> DevicePool \<times> world" where
  "getSession now dp w =
     (if length (idle dp) > 0 then
        (let sess = last (idle dp) in
         (Inr sess, dp\<lparr>idle := butlast (idle dp), active := finsert sess (active dp)\<rparr>, w))
      else if int (fcard (active dp)) \<ge> maxOpen dp then
        (Inl (NewDeviceError ''connection pool exhausted'' ''too many active connections'' None), dp, w)
      else
        (case Open (Driver (device dp)) (Endpoint (device dp)) (opens w) of
           Inl err \<Rightarrow> (Inl err, dp, w\<lparr>opens := Suc (opens w)\<rparr>)
         | Inr sess \<Rightarrow>
             (Inr sess,
              dp\<lparr>active := finsert sess (active dp), createdAt := (createdAt dp)(sess \<mapsto> now)\<rparr>,
              w\<lparr>opens := Suc (opens w)\<rparr>)))"

definition returnSession :: "session \<Rightarrow> DevicePool \<Rightarrow> world \<Rightarrow> DevicePool \<times> world" where
  "returnSession sess dp w =
     (let dp1 = dp\<lparr>active := active dp |-| {|sess|}\<rparr> in
      if int (length (idle dp1)) < maxIdle dp1 then
        (dp1\<lparr>idle := idle dp1 @ [sess]\<rparr>, w)
      else
        (dp1\<lparr>createdAt := (createdAt dp1)(sess := None)\<rparr>, w\<lparr>closed := insert sess (closed w)\<rparr>))"

text \<open>
  The loop of \<^verbatim>\<open>cleanExpired\<close> over the idle list: the sessions kept so far, the
  timestamp map (entries are deleted while the loop runs) and the closed sessions.
\<close>

fun expireLoop :: "time \<Rightarrow> duration \<Rightarrow> session list \<Rightarrow> session list \<Rightarrow> (session \<rightharpoonup> time) \<Rightarrow> session set
    \<Rightarrow> session list \<times> (session \<rightharpoonup> time) \<times> session set" where
  "expireLoop now ttl [] validIdle ca cl = (validIdle, ca, cl)"
| "expireLoop now ttl (sess # rest) validIdle ca cl =
     (case ca sess of
        Some c \<Rightarrow>
          if Sub now c < ttl then expireLoop now ttl rest (validIdle @ [sess]) ca cl
          else expireLoop now ttl rest validIdle (ca(sess := None)) (insert sess cl)
      | None \<Rightarrow> expireLoop now ttl rest validIdle ca (insert sess cl))"

definition cleanExpired :: "time \<Rightarrow> DevicePool \<Rightarrow> world \<Rightarrow> DevicePool \<times> world" where
  "cleanExpired now dp w =
     (case expireLoop now (idleTime dp) (idle dp) [] (createdAt dp) (closed w) of
        (validIdle, ca, cl) \<Rightarrow> (dp\<lparr>idle := validIdle, createdAt := ca\<rparr>, w\<lparr>closed := cl\<rparr>))"

definition closeAll :: "DevicePool \<Rightarrow> world \<Rightarrow> DevicePool \<times> world" where
  "closeAll dp w =
     (dp\<lparr>idle := [], active := {||}, createdAt := Map.empty\<rparr>,
      w\<lparr>closed := closed w \<union> set (idle dp) \<union> fset (active dp)\<rparr>)"

section \<open>Connection pool\<close>

definition NewConnectionPool :: ConnectionPool where
  "NewConnectionPool = \<lparr>pools = [], poolMaxIdle = 5, poolMaxOpen = 10, poolIdleTime = 5 * 60 * 1000000000\<rparr>"

definition SetLimits :: "int \<Rightarrow> int \<Rightarrow> duration \<Rightarrow> ConnectionPool \<Rightarrow> ConnectionPool" where
  "SetLimits mi mo it p = p\<lparr>poolMaxIdle := mi, poolMaxOpen := mo, poolIdleTime := it\<rparr>"

text \<open>The sub-pool that \<^verbatim>\<open>GetSession\<close> creates on first access to a device id.\<close>

definition newDevicePool :: "Device \<Rightarrow> ConnectionPool \<Rightarrow> DevicePool" where
  "newDevicePool d p =
     \<lparr>device = d, idle = [], active = {||}, createdAt = Map.empty,
      maxIdle = poolMaxIdle p, maxOpen = poolMaxOpen p, idleTime = poolIdleTime p\<rparr>"

definition GetSession :: "time \<Rightarrow> MinerID \<Rightarrow> Device \<Rightarrow> ConnectionPool \<Rightarrow> world
    \<Rightarrow> (error + session) \<times> ConnectionPool \<times> world" where
  "GetSession now mid d p w =
     (let dp = (case map_of (pools p) mid of Some dp \<Rightarrow> dp | None \<Rightarrow> newDevicePool d p) in
      case getSession now dp w of
        (r, dp', w') \<Rightarrow> (r, p\<lparr>pools := AList.update mid dp' (pools p)\<rparr>, w'))"

definition ReturnSession :: "MinerID \<Rightarrow> session \<Rightarrow> ConnectionPool \<Rightarrow> world \<Rightarrow> ConnectionPool \<times> world" where
  "ReturnSession mid sess p w =
     (case map_of (pools p) mid of
        Some dp \<Rightarrow>
          (case returnSession sess dp w of
             (dp', w') \<Rightarrow> (p\<lparr>pools := AList.update mid dp' (pools p)\<rparr>, w'))
      | None \<Rightarrow> (p, w\<lparr>closed := insert sess (closed w)\<rparr>))"

text \<open>Applying a sub-pool operation to every sub-pool of the map, threading the world.\<close>

fun forEachPool :: "(DevicePool \<Rightarrow> world \<Rightarrow> DevicePool \<times> world) \<Rightarrow> (MinerID \<times> DevicePool) list \<Rightarrow> world
    \<Rightarrow> (MinerID \<times> DevicePool) list \<times> world" where
  "forEachPool f [] w = ([], w)"
| "forEachPool f ((mid, dp) # rest) w =
     (case f dp w of
        (dp', w') \<Rightarrow> (case forEachPool f rest w' of (rest', w'') \<Rightarrow> ((mid, dp') # rest', w'')))"

definition CleanUp :: "time \<Rightarrow> ConnectionPool \<Rightarrow> world \<Rightarrow> ConnectionPool \<times> world" where
  "CleanUp now p w =
     (case forEachPool (cleanExpired now) (pools p) w of (ps, w') \<Rightarrow> (p\<lparr>pools := ps\<rparr>, w'))"

definition PoolClose :: "ConnectionPool \<Rightarrow> world \<Rightarrow> ConnectionPool \<times> world" where
  "PoolClose p w =
     (case forEachPool closeAll (pools p) w of (ps, w') \<Rightarrow> (p\<lparr>pools := []\<rparr>, w'))"

definition statsOf :: "DevicePool \<Rightarrow> PoolStats" where
  "statsOf dp =
     \<lparr>ActiveConnections = int (fcard (active dp)), IdleConnections = int (length (idle dp)),
      MaxOpen = maxOpen dp, MaxIdle = maxIdle dp\<rparr>"

definition Stats :: "ConnectionPool \<Rightarrow> (MinerID \<times> PoolStats) list" where
  "Stats p = map (\<lambda>(mid, dp). (mid, statsOf dp)) (pools p)"

text \<open>
  Reading a Go map at a key: the stored value, or the zero value of the element
  type when the key is absent.
\<close>

definition zeroPoolStats :: PoolStats where
  "zeroPoolStats = \<lparr>ActiveConnections = 0, IdleConnections = 0, MaxOpen = 0, MaxIdle = 0\<rparr>"

definition statsAt :: "(MinerID \<times> PoolStats) list \<Rightarrow> MinerID \<Rightarrow> PoolStats" where
  "statsAt st mid = (case map_of st mid of Some s \<Rightarrow> s | None \<Rightarrow> zeroPoolStats)"

section \<open>Manager\<close>

definition NewManager :: "Registry \<Rightarrow> Manager" where
  "NewManager r =
     \<lparr>reg = r, dev = Map.empty, pool = SetLimits 5 10 (5 * 60 * 1000000000) NewConnectionPool\<rparr>"

text \<open>The driver argument of \<^verbatim>\<open>AddOrDetect\<close> may be nil: an option.\<close>

definition AddOrDetect :: "MinerID \<Rightarrow> Endpoint \<Rightarrow> Driver option \<Rightarrow> Manager \<Rightarrow> error option \<times> Manager" where
  "AddOrDetect mid ep d m =
     (case (case d of Some d' \<Rightarrow> Inr d' | None \<Rightarrow> RegistryDetect (reg m) ep) of
        Inl err \<Rightarrow> (Some err, m)
      | Inr d' \<Rightarrow>
          (None, m\<lparr>dev := (dev m)(mid \<mapsto> \<lparr>ID = mid, Endpoint = ep, Driver = d', DriverName = Name d'\<rparr>)\<rparr>))"

text \<open>
  \<^verbatim>\<open>WithSession\<close>. The callback is the function \<open>fn\<close> from the session to the
  error it returns. The result carries, besides the returned error and the new state,
  what \<^verbatim>\<open>WithSession\<close> did, in order.
\<close>

datatype ws_event = Acquire MinerID | Invoke session | Release MinerID session

definition WithSession :: "time \<Rightarrow> MinerID \<Rightarrow> (session \<Rightarrow> error option) \<Rightarrow> Manager \<Rightarrow> world
    \<Rightarrow> error option \<times> ws_event list \<times> Manager \<times> world" where
  "WithSession now mid fn m w =
     (case dev m mid of
        None \<Rightarrow> (Some ErrNotFound, [], m, w)
      | Some d \<Rightarrow>
          (case GetSession now mid d (pool m) w of
             (Inl err, p', w') \<Rightarrow> (Some err, [Acquire mid], m\<lparr>pool := p'\<rparr>, w')
           | (Inr sess, p', w') \<Rightarrow>
               (let r = fn sess in
                case ReturnSession mid sess p' w' of
                  (p'', w'') \<Rightarrow> (r, [Acquire mid, Invoke sess, Release mid sess], m\<lparr>pool := p''\<rparr>, w''))))"

definition ManagerClose :: "Manager \<Rightarrow> world \<Rightarrow> error option \<times> Manager \<times> world" where
  "ManagerClose m w = (case PoolClose (pool m) w of (p', w') \<Rightarrow> (None, m\<lparr>pool := p'\<rparr>, w'))"

definition GetPoolStats :: "Manager \<Rightarrow> (MinerID \<times> PoolStats) list" where
  "GetPoolStats m = Stats (pool m)"

section \<open>Expiry, in the words of the specification\<close>

text \<open>
  The specification keeps an idle session when its age, \<open>now - createdAt\<close>, is below
  the idle time-to-live, and treats a session with no recorded creation time as
  expired. \<open>unexpired\<close> is that condition on the sub-pool before the pass; \<open>keeps\<close> is
  the test that the loop of \<^verbatim>\<open>cleanExpired\<close> makes on its current timestamp map.
\<close>

definition unexpired :: "time \<Rightarrow> DevicePool \<Rightarrow> session \<Rightarrow> bool" where
  "unexpired now dp s = (case createdAt dp s of Some c \<Rightarrow> now - c < idleTime dp | None \<Rightarrow> False)"

definition keeps :: "time \<Rightarrow> duration \<Rightarrow> (session \<rightharpoonup> time) \<Rightarrow> session \<Rightarrow> bool" where
  "keeps now ttl ca s = (case ca s of Some c \<Rightarrow> Sub now c < ttl | None \<Rightarrow> False)"

section \<open>Sequences of operations\<close>

text \<open>
  The operations a caller can apply to one sub-pool, and to the top-level pool, as
  data, so that reachable states are the results of running a list of them.
\<close>

datatype dp_op = OpGet time | OpReturn session | OpClean time | OpCloseAll

fun dp_step :: "DevicePool \<times> world \<Rightarrow> dp_op \<Rightarrow> DevicePool \<times> world" where
  "dp_step (dp, w) (OpGet now) = snd (getSession now dp w)"
| "dp_step (dp, w) (OpReturn sess) = returnSession sess dp w"
| "dp_step (dp, w) (OpClean now) = cleanExpired now dp w"
| "dp_step (dp, w) OpCloseAll = closeAll dp w"

definition dp_run :: "dp_op list \<Rightarrow> DevicePool \<times> world \<Rightarrow> DevicePool \<times> world" where
  "dp_run ops st = foldl dp_step st ops"

datatype pool_op = DoGet MinerID Device time | DoReturn MinerID session | DoCleanUp time | DoClose

fun pool_step :: "ConnectionPool \<times> world \<Rightarrow> pool_op \<Rightarrow> ConnectionPool \<times> world" where
  "pool_step (p, w) (DoGet mid d now) = snd (GetSession now mid d p w)"
| "pool_step (p, w) (DoReturn mid sess) = ReturnSession mid sess p w"
| "pool_step (p, w) (DoCleanUp now) = CleanUp now p w"
| "pool_step (p, w) DoClose = PoolClose p w"

definition pool_run :: "pool_op list \<Rightarrow> ConnectionPool \<times> world \<Rightarrow> ConnectionPool \<times> world" where
  "pool_run ops st = foldl pool_step st ops"


text \<open>
  The bookkeeping condition of one sub-pool: the idle list within its bound, idle
  and active sessions together within the bound on open sessions, no session twice
  in the idle list, none both idle and active. \<open>returns_active\<close> says of a list of
  operations that every session returned is, at that moment, in the active set of
  the sub-pool it is returned to.
\<close>

definition pool_inv :: "DevicePool \<Rightarrow> bool" where
  "pool_inv dp =
     (int (length (idle dp)) \<le> maxIdle dp
      \<and> int (length (idle dp)) + int (fcard (active dp)) \<le> maxOpen dp
      \<and> distinct (idle dp)
      \<and> (\<forall>s \<in> set (idle dp). s |\<notin>| active dp))"

fun returns_active :: "dp_op list \<Rightarrow> DevicePool \<times> world \<Rightarrow> bool" where
  "returns_active [] st = True"
| "returns_active (op # ops) st =
     ((case op of OpReturn s \<Rightarrow> s |\<in>| active (fst st) | _ \<Rightarrow> True) \<and> returns_active ops (dp_step st op))"

section \<open>Drivers and devices used in the examples\<close>

text \<open>
  A driver with the name and the \<^verbatim>\<open>Detect\<close> of the test double of
  \<^verbatim>\<open>manager_test.go\<close>: \<^verbatim>\<open>Detect\<close> returns the configured error if there is one and
  the configured answer otherwise. Its \<^verbatim>\<open>Open\<close> succeeds on every call with a session
  of its own, as a driver that connects to a device does. This is not the \<^verbatim>\<open>Open\<close> of
  the test double, whose sessions are pointers to a zero-size struct, which Go allows
  to be all equal; \<open>sameHandleDriver\<close> below is the driver that behaves so.
\<close>

definition mockDriver :: "string \<Rightarrow> bool \<Rightarrow> error option \<Rightarrow> Driver" where
  "mockDriver name shouldDetect detectError =
     \<lparr>Name = name,
      Detect = (\<lambda>ep. case detectError of Some e \<Rightarrow> (False, Some e) | None \<Rightarrow> (shouldDetect, None)),
      Open = (\<lambda>ep n. Inr n)\<rparr>"

text \<open>A driver whose device accepts the first connection and refuses every later one.\<close>

definition refusingDriver :: Driver where
  "refusingDriver =
     \<lparr>Name = ''refusing'',
      Detect = (\<lambda>ep. (True, None)),
      Open = (\<lambda>ep n. if n = 0 then Inr 0 else Inl (ForeignError ''connection refused''))\<rparr>"

definition ep1 :: Endpoint where
  "ep1 = \<lparr>Address = ''192.168.1.103:4028''\<rparr>"

definition ep2 :: Endpoint where
  "ep2 = \<lparr>Address = ''192.168.1.104:4028''\<rparr>"

definition poolDevice :: Device where
  "poolDevice =
     \<lparr>ID = ''pool-test'', Endpoint = ep1, Driver = mockDriver ''pool-driver'' True None,
      DriverName = ''pool-driver''\<rparr>"

definition refusingDevice :: Device where
  "refusingDevice =
     \<lparr>ID = ''pool-test'', Endpoint = ep1, Driver = refusingDriver, DriverName = ''refusing''\<rparr>"

definition world0 :: world where
  "world0 = \<lparr>opens = 0, closed = {}\<rparr>"

definition world1 :: world where
  "world1 = \<lparr>opens = 1, closed = {}\<rparr>"

definition failingCallback :: "session \<Rightarrow> error option" where
  "failingCallback s = Some (ForeignError ''boom'')"

definition autoManager :: Manager where
  "autoManager = NewManager (Register (mockDriver ''auto-driver'' True None) NewRegistry)"

definition poolManager :: Manager where
  "poolManager =
     snd (AddOrDetect ''pool-test'' ep1 (Some (mockDriver ''pool-driver'' True None)) (NewManager NewRegistry))"

definition refusingManager :: Manager where
  "refusingManager = snd (AddOrDetect ''pool-test'' ep1 (Some refusingDriver) (NewManager NewRegistry))"

text \<open>
  A sub-pool with four idle sessions: two opened at time 100, one at time 10 and one
  with no recorded creation time; session 5 is checked out. The idle time-to-live
  is 50.
\<close>

definition agedPool :: DevicePool where
  "agedPool =
     \<lparr>device = poolDevice, idle = [0, 1, 2, 3], active = {|5|},
      createdAt = [0 \<mapsto> 100, 1 \<mapsto> 10, 2 \<mapsto> 100, 5 \<mapsto> 100],
      maxIdle = 5, maxOpen = 10, idleTime = 50\<rparr>"

definition agedConnectionPool :: ConnectionPool where
  "agedConnectionPool = \<lparr>pools = [(''pool-test'', agedPool)], poolMaxIdle = 5, poolMaxOpen = 10, poolIdleTime = 50\<rparr>"

text \<open>
  The manager after two sessions were checked out of the pool for the device and
  the first one was returned: session 0 is idle, session 1 is active.
\<close>

definition busyManager :: Manager where
  "busyManager = poolManager\<lparr>pool := fst (pool_run
       [DoGet ''pool-test'' poolDevice 0, DoGet ''pool-test'' poolDevice 1, DoReturn ''pool-test'' 0]
       (pool poolManager, world0))\<rparr>"

definition world2 :: world where
  "world2 = \<lparr>opens = 2, closed = {}\<rparr>"

text \<open>
  A sub-pool with a time-to-live of 50; the same after its first session was opened
  at time 0; the operations that return that session, reuse it at time 40 and return
  it again; and the sub-pool after them.
\<close>

definition ttlPool :: DevicePool where
  "ttlPool = \<lparr>device = poolDevice, idle = [], active = {||}, createdAt = Map.empty,
      maxIdle = 5, maxOpen = 10, idleTime = 50\<rparr>"

definition openedPool :: DevicePool where
  "openedPool = \<lparr>device = poolDevice, idle = [], active = {|0|}, createdAt = [0 \<mapsto> 0],
      maxIdle = 5, maxOpen = 10, idleTime = 50\<rparr>"

definition reuseOps :: "dp_op list" where
  "reuseOps = [OpReturn 0, OpGet 40, OpReturn 0]"

definition reusedPool :: DevicePool where
  "reusedPool = \<lparr>device = poolDevice, idle = [0], active = {||}, createdAt = [0 \<mapsto> 0],
      maxIdle = 5, maxOpen = 10, idleTime = 50\<rparr>"

text \<open>
  A driver whose \<^verbatim>\<open>Open\<close> returns the same session value on every call. Go lets
  pointers to distinct zero-size values be equal, so the \<^verbatim>\<open>&mockSession{}\<close> of
  \<^verbatim>\<open>manager_test.go\<close> can behave so. With it, a device and its newly created sub-pool
  with a time-to-live of 50.
\<close>

definition sameHandleDriver :: Driver where
  "sameHandleDriver =
     \<lparr>Name = ''same-handle'', Detect = (\<lambda>ep. (True, None)), Open = (\<lambda>ep n. Inr 0)\<rparr>"

definition sameHandleDevice :: Device where
  "sameHandleDevice =
     \<lparr>ID = ''pool-test'', Endpoint = ep1, Driver = sameHandleDriver, DriverName = ''same-handle''\<rparr>"

definition sameHandlePool :: DevicePool where
  "sameHandlePool = newDevicePool sameHandleDevice (SetLimits 5 10 50 NewConnectionPool)"

text \<open>
  Sub-pools of the refusing device with one open session allowed, which is checked
  out: one keeps a returned session idle, the other (\<open>maxIdle = 0\<close>) closes it.
\<close>

definition fullPool :: DevicePool where
  "fullPool = \<lparr>device = refusingDevice, idle = [], active = {|0|}, createdAt = [0 \<mapsto> 0],
      maxIdle = 1, maxOpen = 1, idleTime = 50\<rparr>"

definition exhaustedPool :: DevicePool where
  "exhaustedPool = \<lparr>device = refusingDevice, idle = [], active = {|0|}, createdAt = [0 \<mapsto> 0],
      maxIdle = 0, maxOpen = 1, idleTime = 50\<rparr>"

text \<open>
  The same with two active sessions, one more than \<open>maxOpen\<close>.
\<close>

definition overfullPool :: DevicePool where
  "overfullPool = \<lparr>device = refusingDevice, idle = [], active = {|0, 1|}, createdAt = [0 \<mapsto> 0, 1 \<mapsto> 0],
      maxIdle = 0, maxOpen = 1, idleTime = 50\<rparr>"

text \<open>
  A pool limited to one idle and one open session per device, and a run in which
  the session checked out first is returned after the pool was closed and the
  device's sub-pool created anew by another checkout.
\<close>

definition stalePool :: ConnectionPool where
  "stalePool = SetLimits 1 1 60000000000 NewConnectionPool"

definition staleTrace :: "pool_op list" where
  "staleTrace =
     [DoGet ''pool-test'' poolDevice 0, DoClose, DoGet ''pool-test'' poolDevice 1,
      DoReturn ''pool-test'' 0, DoGet ''pool-test'' poolDevice 2]"

section \<open>Evaluation\<close>

text \<open>The equations that evaluate the operations on concrete states.\<close>

lemmas eval_defs =
  AddOrDetect_def NewManager_def NewRegistry_def Register_def RegistryDetect_def RegistryProbed_def
  mockDriver_def refusingDriver_def ep1_def ep2_def poolDevice_def refusingDevice_def world0_def world1_def
  autoManager_def poolManager_def refusingManager_def failingCallback_def
  WithSession_def GetSession_def ReturnSession_def getSession_def returnSession_def newDevicePool_def
  SetLimits_def NewConnectionPool_def NewDeviceError_def Let_def
  agedPool_def agedConnectionPool_def
  busyManager_def world2_def pool_run_def finsert_fminus_if
  ttlPool_def openedPool_def reuseOps_def reusedPool_def
  sameHandleDriver_def sameHandleDevice_def sameHandlePool_def dp_run_def fullPool_def exhaustedPool_def overfullPool_def
  fcard_fempty fcard_finsert_if fcard_fminus_fsingleton_if update_conv'

section \<open>Registry: detection\<close>

lemma detectLoop_skip:
  "\<forall>x \<in> set pre. Detect x ep = (False, None) \<Longrightarrow>
   detectLoop (pre @ rest) ep = (fst (detectLoop rest ep), pre @ snd (detectLoop rest ep))"
  by (induction pre) (auto split: prod.splits)

text \<open>
  C3. \<^verbatim>\<open>Registry.Detect\<close> returns the first driver, in registration order, whose
  \<^verbatim>\<open>Detect\<close> answers \<open>(true, nil)\<close> when every driver registered before it answered
  \<open>(false, nil)\<close>, after probing exactly those drivers in order; when every
  registered driver answers \<open>(false, nil)\<close> the result is the driver-not-found error.
\<close>

theorem Registry_Detect_first_match:
  "(drivers r = pre @ d # post \<and> (\<forall>x \<in> set pre. Detect x ep = (False, None)) \<and> Detect d ep = (True, None)
      \<longrightarrow> RegistryDetect r ep = Inr d \<and> RegistryProbed r ep = pre @ [d])
   \<and> ((\<forall>x \<in> set (drivers r). Detect x ep = (False, None))
      \<longrightarrow> RegistryDetect r ep = Inl NewDriverNotFoundError)"
proof (intro conjI impI)
  assume a: "drivers r = pre @ d # post \<and> (\<forall>x \<in> set pre. Detect x ep = (False, None)) \<and> Detect d ep = (True, None)"
  then have "detectLoop (drivers r) ep = (Inr d, pre @ [d])"
    using detectLoop_skip [of pre ep "d # post"] by simp
  then show "RegistryDetect r ep = Inr d" "RegistryProbed r ep = pre @ [d]"
    by (simp_all add: RegistryDetect_def RegistryProbed_def)
next
  assume "\<forall>x \<in> set (drivers r). Detect x ep = (False, None)"
  then show "RegistryDetect r ep = Inl NewDriverNotFoundError"
    using detectLoop_skip [of "drivers r" ep "[]"] by (simp add: RegistryDetect_def)
qed

theorem Registry_Detect_first_match_witness:
  "RegistryDetect (Register (mockDriver ''d2'' True None) (Register (mockDriver ''d1'' False None) NewRegistry)) ep1
     = Inr (mockDriver ''d2'' True None)
   \<and> RegistryProbed (Register (mockDriver ''d2'' True None) (Register (mockDriver ''d1'' False None) NewRegistry)) ep1
     = [mockDriver ''d1'' False None, mockDriver ''d2'' True None]
   \<and> RegistryDetect (Register (mockDriver ''d1'' False None) NewRegistry) ep1 = Inl NewDriverNotFoundError"
  using Registry_Detect_first_match
      [of "Register (mockDriver ''d2'' True None) (Register (mockDriver ''d1'' False None) NewRegistry)"
          "[mockDriver ''d1'' False None]" "mockDriver ''d2'' True None" "[]" ep1]
    Registry_Detect_first_match
      [of "Register (mockDriver ''d1'' False None) NewRegistry" "[]" "mockDriver ''d1'' False None" "[]" ep1]
  by (simp add: Register_def NewRegistry_def mockDriver_def)

text \<open>
  C4. If a driver's \<^verbatim>\<open>Detect\<close> returns a non-nil error and every driver registered
  before it answered \<open>(false, nil)\<close>, \<^verbatim>\<open>Registry.Detect\<close> returns exactly that error,
  and the drivers probed are those up to and including the failing one: no driver
  registered after it is asked, whatever it would have answered.
\<close>

theorem Registry_Detect_error_short_circuits:
  assumes "drivers r = pre @ d # post"
    and "\<forall>x \<in> set pre. Detect x ep = (False, None)"
    and "Detect d ep = (b, Some e)"
  shows "RegistryDetect r ep = Inl e \<and> RegistryProbed r ep = pre @ [d]"
proof -
  have "detectLoop (drivers r) ep = (Inl e, pre @ [d])"
    using assms detectLoop_skip [of pre ep "d # post"] by simp
  then show ?thesis by (simp add: RegistryDetect_def RegistryProbed_def)
qed

theorem Registry_Detect_error_short_circuits_witness:
  "RegistryDetect (Register (mockDriver ''d2'' True None)
       (Register (mockDriver ''d1'' False (Some (ForeignError ''timeout''))) NewRegistry)) ep1
     = Inl (ForeignError ''timeout'')
   \<and> RegistryProbed (Register (mockDriver ''d2'' True None)
       (Register (mockDriver ''d1'' False (Some (ForeignError ''timeout''))) NewRegistry)) ep1
     = [mockDriver ''d1'' False (Some (ForeignError ''timeout''))]"
  using Registry_Detect_error_short_circuits
      [of "Register (mockDriver ''d2'' True None)
             (Register (mockDriver ''d1'' False (Some (ForeignError ''timeout''))) NewRegistry)"
          "[]" "mockDriver ''d1'' False (Some (ForeignError ''timeout''))"
          "[mockDriver ''d2'' True None]" ep1 False "ForeignError ''timeout''"]
  by (simp add: Register_def NewRegistry_def mockDriver_def)

section \<open>Manager: registration\<close>

text \<open>
  C5. When \<^verbatim>\<open>AddOrDetect\<close> succeeds, the device table maps the id to the record made
  of the id, the endpoint, the driver (the supplied one, or the one that
  \<^verbatim>\<open>Registry.Detect\<close> resolved when none was supplied) and that driver's name, and
  every other entry is as before. When detection fails, \<^verbatim>\<open>AddOrDetect\<close> returns that
  error and the manager is unchanged; and it fails in no other way.
\<close>

theorem AddOrDetect_table:
  "(AddOrDetect mid ep d m = (None, m') \<longrightarrow>
      (\<exists>d'. (d = Some d' \<or> (d = None \<and> RegistryDetect (reg m) ep = Inr d'))
         \<and> dev m' mid = Some \<lparr>ID = mid, Endpoint = ep, Driver = d', DriverName = Name d'\<rparr>)
      \<and> (\<forall>k. k \<noteq> mid \<longrightarrow> dev m' k = dev m k))
   \<and> (d = None \<and> RegistryDetect (reg m) ep = Inl e \<longrightarrow> AddOrDetect mid ep d m = (Some e, m))
   \<and> (AddOrDetect mid ep d m = (Some e, m') \<longrightarrow>
        d = None \<and> RegistryDetect (reg m) ep = Inl e \<and> m' = m)"
  by (auto simp: AddOrDetect_def split: option.splits sum.splits)

theorem AddOrDetect_table_witness:
  "dev (snd (AddOrDetect ''x'' ep2 None (snd (AddOrDetect ''x'' ep1 None autoManager)))) ''x''
     = Some \<lparr>ID = ''x'', Endpoint = ep2, Driver = mockDriver ''auto-driver'' True None,
             DriverName = ''auto-driver''\<rparr>
   \<and> dev (snd (AddOrDetect ''x'' ep2 None (snd (AddOrDetect ''x'' ep1 None autoManager)))) ''y'' = None
   \<and> AddOrDetect ''x'' ep1 None (NewManager NewRegistry) = (Some NewDriverNotFoundError, NewManager NewRegistry)"
  using AddOrDetect_table [of "''x''" ep2 None "snd (AddOrDetect ''x'' ep1 None autoManager)"
       "snd (AddOrDetect ''x'' ep2 None (snd (AddOrDetect ''x'' ep1 None autoManager)))" NewDriverNotFoundError]
    AddOrDetect_table [of "''x''" ep1 None "NewManager NewRegistry" "NewManager NewRegistry" NewDriverNotFoundError]
  by (simp add: eval_defs)

section \<open>Manager: sessions\<close>

lemma GetSession_pool:
  "GetSession now mid d p w = (r, p', w') \<Longrightarrow>
   \<exists>dp dp'. (dp = (case map_of (pools p) mid of Some x \<Rightarrow> x | None \<Rightarrow> newDevicePool d p))
     \<and> getSession now dp w = (r, dp', w') \<and> map_of (pools p') mid = Some dp'
     \<and> (\<forall>k. k \<noteq> mid \<longrightarrow> map_of (pools p') k = map_of (pools p) k)"
  by (auto simp: GetSession_def Let_def update_conv' split: prod.splits)

lemma returnSession_post:
  "returnSession s dp w = (dp', w') \<Longrightarrow>
   s |\<notin>| active dp' \<and> ((idle dp' \<noteq> [] \<and> last (idle dp') = s) \<or> s \<in> closed w')"
  by (auto simp: returnSession_def Let_def split: if_splits)

lemma ReturnSession_pool:
  "map_of (pools p) mid = Some dp \<Longrightarrow> ReturnSession mid s p w = (p', w') \<Longrightarrow>
   \<exists>dp'. returnSession s dp w = (dp', w') \<and> map_of (pools p') mid = Some dp'
     \<and> (\<forall>k. k \<noteq> mid \<longrightarrow> map_of (pools p') k = map_of (pools p) k)"
  by (auto simp: ReturnSession_def update_conv' split: prod.splits)

text \<open>
  C1. \<^verbatim>\<open>WithSession\<close> on an id that is not in the device table returns
  \<^verbatim>\<open>ErrNotFound\<close>, does nothing (no event) and leaves the manager, its pool and the
  world as they were. On a known id, when \<^verbatim>\<open>GetSession\<close> fails its error is the
  result, as it is, and the callback is not invoked. When \<^verbatim>\<open>GetSession\<close> yields a
  session, the callback is invoked once, on that session, then the session is
  returned once with \<^verbatim>\<open>ReturnSession\<close>, whatever the callback returned, and the
  result is the callback's result; afterwards the session is not in the active set
  of the device's sub-pool, and it is either the newest idle entry or closed.
\<close>

theorem WithSession_contract:
  "(dev m mid = None \<longrightarrow> WithSession now mid fn m w = (Some ErrNotFound, [], m, w))
   \<and> (dev m mid = Some d \<and> GetSession now mid d (pool m) w = (Inl e, p', w') \<longrightarrow>
        WithSession now mid fn m w = (Some e, [Acquire mid], m\<lparr>pool := p'\<rparr>, w'))
   \<and> (dev m mid = Some d \<and> GetSession now mid d (pool m) w = (Inr s, p', w') \<longrightarrow>
        (\<exists>p'' w'' dp.
           WithSession now mid fn m w = (fn s, [Acquire mid, Invoke s, Release mid s], m\<lparr>pool := p''\<rparr>, w'')
           \<and> ReturnSession mid s p' w' = (p'', w'')
           \<and> map_of (pools p'') mid = Some dp \<and> s |\<notin>| active dp
           \<and> ((idle dp \<noteq> [] \<and> last (idle dp) = s) \<or> s \<in> closed w'')))"
proof (intro conjI impI)
  assume "dev m mid = None"
  then show "WithSession now mid fn m w = (Some ErrNotFound, [], m, w)"
    by (simp add: WithSession_def)
next
  assume "dev m mid = Some d \<and> GetSession now mid d (pool m) w = (Inl e, p', w')"
  then show "WithSession now mid fn m w = (Some e, [Acquire mid], m\<lparr>pool := p'\<rparr>, w')"
    by (simp add: WithSession_def)
next
  assume a: "dev m mid = Some d \<and> GetSession now mid d (pool m) w = (Inr s, p', w')"
  obtain p'' w'' where r: "ReturnSession mid s p' w' = (p'', w'')"
    by (cases "ReturnSession mid s p' w'") auto
  from a obtain dp1 where dp1: "map_of (pools p') mid = Some dp1"
    using GetSession_pool [of now mid d "pool m" w "Inr s" p' w'] by auto
  from ReturnSession_pool [OF dp1 r] obtain dp where
    dp: "returnSession s dp1 w' = (dp, w'')" "map_of (pools p'') mid = Some dp" by auto
  have ws: "WithSession now mid fn m w
      = (fn s, [Acquire mid, Invoke s, Release mid s], m\<lparr>pool := p''\<rparr>, w'')"
    using a r by (simp add: WithSession_def Let_def)
  show "\<exists>p'' w'' dp.
           WithSession now mid fn m w = (fn s, [Acquire mid, Invoke s, Release mid s], m\<lparr>pool := p''\<rparr>, w'')
           \<and> ReturnSession mid s p' w' = (p'', w'')
           \<and> map_of (pools p'') mid = Some dp \<and> s |\<notin>| active dp
           \<and> ((idle dp \<noteq> [] \<and> last (idle dp) = s) \<or> s \<in> closed w'')"
    using ws r dp returnSession_post [OF dp(1)] by blast
qed

theorem WithSession_contract_witness:
  "WithSession 7 ''nonexistent'' failingCallback poolManager world0 = (Some ErrNotFound, [], poolManager, world0)
   \<and> fst (WithSession 7 ''pool-test'' failingCallback refusingManager world1)
        = Some (ForeignError ''connection refused'')
   \<and> fst (snd (WithSession 7 ''pool-test'' failingCallback refusingManager world1)) = [Acquire ''pool-test'']
   \<and> fst (WithSession 7 ''pool-test'' failingCallback poolManager world0) = Some (ForeignError ''boom'')
   \<and> fst (snd (WithSession 7 ''pool-test'' failingCallback poolManager world0))
        = [Acquire ''pool-test'', Invoke 0, Release ''pool-test'' 0]"
  using WithSession_contract [where m = poolManager and mid = "''nonexistent''" and now = 7
          and fn = failingCallback and w = world0 and d = poolDevice and s = 0
          and e = "ForeignError ''connection refused''" and p' = "pool poolManager" and w' = world0]
    WithSession_contract [where m = refusingManager and mid = "''pool-test''" and now = 7
          and fn = failingCallback and w = world1 and d = refusingDevice
          and e = "ForeignError ''connection refused''" and s = 0
          and p' = "fst (snd (GetSession 7 ''pool-test'' refusingDevice (pool refusingManager) world1))"
          and w' = "snd (snd (GetSession 7 ''pool-test'' refusingDevice (pool refusingManager) world1))"]
    WithSession_contract [where m = poolManager and mid = "''pool-test''" and now = 7
          and fn = failingCallback and w = world0 and d = poolDevice and s = 0
          and e = "ForeignError ''connection refused''"
          and p' = "fst (snd (GetSession 7 ''pool-test'' poolDevice (pool poolManager) world0))"
          and w' = "snd (snd (GetSession 7 ''pool-test'' poolDevice (pool poolManager) world0))"]
  by (simp add: eval_defs)

section \<open>Idle eviction\<close>

lemma keeps_upd: "\<not> keeps now ttl ca x \<Longrightarrow> keeps now ttl (ca(x := None)) = keeps now ttl ca"
  by (auto simp: keeps_def fun_eq_iff)

text \<open>
  The loop is a filter: deleting the timestamp of an evicted session while the loop
  runs does not change the verdict on any later element.
\<close>

lemma expireLoop_filter:
  "expireLoop now ttl xs valid ca cl =
     (valid @ filter (keeps now ttl ca) xs,
      (\<lambda>s. if s \<in> set xs \<and> \<not> keeps now ttl ca s then None else ca s),
      cl \<union> {s \<in> set xs. \<not> keeps now ttl ca s})"
proof (induction xs arbitrary: valid ca cl)
  case Nil
  then show ?case by simp
next
  case (Cons x xs)
  show ?case
  proof (cases "keeps now ttl ca x")
    case True
    then obtain c where c: "ca x = Some c" "Sub now c < ttl"
      by (auto simp: keeps_def split: option.splits)
    have "expireLoop now ttl (x # xs) valid ca cl = expireLoop now ttl xs (valid @ [x]) ca cl"
      using c by simp
    also have "\<dots> = (valid @ filter (keeps now ttl ca) (x # xs),
      (\<lambda>s. if s \<in> set (x # xs) \<and> \<not> keeps now ttl ca s then None else ca s),
      cl \<union> {s \<in> set (x # xs). \<not> keeps now ttl ca s})"
      unfolding Cons.IH using True by (auto simp: fun_eq_iff)
    finally show ?thesis .
  next
    case False
    have "expireLoop now ttl (x # xs) valid ca cl
        = expireLoop now ttl xs valid (ca(x := None)) (insert x cl)"
    proof (cases "ca x")
      case None
      then have "ca(x := None) = ca" by (simp add: fun_upd_idem)
      then show ?thesis using None by simp
    next
      case (Some c)
      then show ?thesis using False by (simp add: keeps_def)
    qed
    also have "\<dots> = (valid @ filter (keeps now ttl ca) (x # xs),
      (\<lambda>s. if s \<in> set (x # xs) \<and> \<not> keeps now ttl ca s then None else ca s),
      cl \<union> {s \<in> set (x # xs). \<not> keeps now ttl ca s})"
      unfolding Cons.IH keeps_upd [OF False] using False by (auto simp: fun_eq_iff)
    finally show ?thesis .
  qed
qed

lemma unexpired_keeps: "unexpired now dp = keeps now (idleTime dp) (createdAt dp)"
  by (auto simp: unexpired_def keeps_def Sub_def fun_eq_iff split: option.splits)

lemma cleanExpired_eq:
  "cleanExpired now dp w =
     (dp\<lparr>idle := filter (unexpired now dp) (idle dp),
         createdAt := (\<lambda>s. if s \<in> set (idle dp) \<and> \<not> unexpired now dp s then None else createdAt dp s)\<rparr>,
      w\<lparr>closed := closed w \<union> {s \<in> set (idle dp). \<not> unexpired now dp s}\<rparr>)"
  by (simp add: cleanExpired_def expireLoop_filter unexpired_keeps)

lemma forEachPool_map_of:
  assumes "\<And>dp w w'. fst (f dp w) = fst (f dp w')"
  shows "map_of (fst (forEachPool f ps w)) mid = map_option (\<lambda>dp. fst (f dp wa)) (map_of ps mid)"
proof (induction ps arbitrary: w)
  case Nil
  then show ?case by simp
next
  case (Cons a ps)
  obtain k dp where a: "a = (k, dp)" by (cases a)
  obtain dp' w' where f: "f dp w = (dp', w')" by (cases "f dp w")
  obtain ps' w'' where r: "forEachPool f ps w' = (ps', w'')" by (cases "forEachPool f ps w'")
  have "dp' = fst (f dp wa)" using assms [of dp w wa] f by simp
  moreover have "map_of ps' mid = map_option (\<lambda>dp. fst (f dp wa)) (map_of ps mid)"
    using Cons.IH [of w'] r by simp
  ultimately show ?case by (simp add: a f r)
qed

lemma cleanExpired_fst: "fst (cleanExpired now dp w) = fst (cleanExpired now dp w')"
  by (simp add: cleanExpired_eq)

lemma forEachPool_clean_map_of:
  "map_of (fst (forEachPool (cleanExpired now) ps w)) mid
     = map_option (\<lambda>dp. fst (cleanExpired now dp wa)) (map_of ps mid)"
  by (rule forEachPool_map_of) (rule cleanExpired_fst)

lemma statsAt_Stats:
  "statsAt (Stats p) mid = (case map_of (pools p) mid of Some dp \<Rightarrow> statsOf dp | None \<Rightarrow> zeroPoolStats)"
proof -
  have "map_of (map (\<lambda>(mid, dp). (mid, statsOf dp)) ps) mid = map_option statsOf (map_of ps mid)" for ps
    by (induction ps) auto
  then show ?thesis by (simp add: statsAt_def Stats_def split: option.splits)
qed

text \<open>
  C8. \<^verbatim>\<open>cleanExpired\<close> leaves in the idle list exactly the sessions whose recorded age
  \<open>now - createdAt\<close> is below the idle time-to-live, in their order, and calls
  \<^verbatim>\<open>Close\<close> on every other idle session and on nothing else; an idle session with no
  recorded creation time is among the closed ones. The active set is unchanged and no
  session is opened. After \<^verbatim>\<open>CleanUp\<close>, \<^verbatim>\<open>Stats\<close> counts for the device only the
  sessions that were kept, and the same active sessions as before.
\<close>

theorem cleanExpired_keeps_unexpired:
  "(cleanExpired now dp w = (dp', w') \<longrightarrow>
      idle dp' = filter (unexpired now dp) (idle dp)
      \<and> closed w' = closed w \<union> {s \<in> set (idle dp). \<not> unexpired now dp s}
      \<and> (\<forall>s. createdAt dp s = None \<and> s \<in> set (idle dp) \<longrightarrow> s \<in> closed w' \<and> s \<notin> set (idle dp'))
      \<and> active dp' = active dp \<and> opens w' = opens w)
   \<and> (map_of (pools p) mid = Some dp \<and> CleanUp now p wp = (p', wp') \<longrightarrow>
        IdleConnections (statsAt (Stats p') mid) = int (length (filter (unexpired now dp) (idle dp)))
        \<and> ActiveConnections (statsAt (Stats p') mid) = ActiveConnections (statsAt (Stats p) mid))"
proof (intro conjI impI)
  assume a: "map_of (pools p) mid = Some dp \<and> CleanUp now p wp = (p', wp')"
  then have "pools p' = fst (forEachPool (cleanExpired now) (pools p) wp)"
    by (auto simp: CleanUp_def split: prod.splits)
  then have m: "map_of (pools p') mid = Some (fst (cleanExpired now dp w))"
    using a forEachPool_clean_map_of [of now "pools p" wp mid w] by simp
  show "IdleConnections (statsAt (Stats p') mid) = int (length (filter (unexpired now dp) (idle dp)))"
    by (simp add: statsAt_Stats m cleanExpired_eq statsOf_def)
  show "ActiveConnections (statsAt (Stats p') mid) = ActiveConnections (statsAt (Stats p) mid)"
    using a by (simp add: statsAt_Stats m cleanExpired_eq statsOf_def)
qed (auto simp: cleanExpired_eq unexpired_def)

theorem cleanExpired_keeps_unexpired_witness:
  "idle (fst (cleanExpired 120 agedPool world0)) = [0, 2]
   \<and> closed (snd (cleanExpired 120 agedPool world0)) = {1, 3}
   \<and> active (fst (cleanExpired 120 agedPool world0)) = {|5|}
   \<and> IdleConnections (statsAt (Stats (fst (CleanUp 120 agedConnectionPool world0))) ''pool-test'') = 2
   \<and> ActiveConnections (statsAt (Stats (fst (CleanUp 120 agedConnectionPool world0))) ''pool-test'') = 1"
proof -
  have u: "filter (unexpired 120 agedPool) (idle agedPool) = [0, 2]"
    by (simp add: unexpired_def agedPool_def)
  have c: "{s \<in> set (idle agedPool). \<not> unexpired 120 agedPool s} = {1, 3}"
    by (auto simp: unexpired_def agedPool_def)
  have m: "map_of (pools agedConnectionPool) ''pool-test'' = Some agedPool"
    by (simp add: agedConnectionPool_def)
  have s: "ActiveConnections (statsAt (Stats agedConnectionPool) ''pool-test'') = 1"
    by (simp add: statsAt_Stats m statsOf_def agedPool_def fcard_finsert_if fcard_fempty)
  show ?thesis
    using cleanExpired_keeps_unexpired [where now = 120 and dp = agedPool and w = world0
        and dp' = "fst (cleanExpired 120 agedPool world0)" and w' = "snd (cleanExpired 120 agedPool world0)"
        and p = agedConnectionPool and mid = "''pool-test''" and wp = world0
        and p' = "fst (CleanUp 120 agedConnectionPool world0)" and wp' = "snd (CleanUp 120 agedConnectionPool world0)"]
    by (simp add: u c m s world0_def) (simp add: agedPool_def)
qed

section \<open>Shutdown\<close>

lemma forEachPool_snd:
  "snd (forEachPool f ((k, dp) # ps) w) = snd (forEachPool f ps (snd (f dp w)))"
  by (simp split: prod.splits)

lemma closeAll_closed: "closed (snd (closeAll dp w)) = closed w \<union> set (idle dp) \<union> fset (active dp)"
  by (simp add: closeAll_def)

lemma closeAll_opens: "opens (snd (closeAll dp w)) = opens w"
  by (simp add: closeAll_def)

lemma forEachPool_closeAll_closed:
  "closed (snd (forEachPool closeAll ps w))
     = closed w \<union> (\<Union>(k, dp) \<in> set ps. set (idle dp) \<union> fset (active dp))"
proof (induction ps arbitrary: w)
  case Nil
  then show ?case by simp
next
  case (Cons a ps)
  obtain k dp where a: "a = (k, dp)" by (cases a)
  show ?case unfolding a forEachPool_snd Cons.IH closeAll_closed by auto
qed

lemma forEachPool_closeAll_opens:
  "opens (snd (forEachPool closeAll ps w)) = opens w"
proof (induction ps arbitrary: w)
  case Nil
  then show ?case by simp
next
  case (Cons a ps)
  obtain k dp where a: "a = (k, dp)" by (cases a)
  show ?case unfolding a forEachPool_snd Cons.IH closeAll_opens ..
qed

text \<open>
  C9. After \<^verbatim>\<open>Manager.Close\<close>, which returns nil, \<^verbatim>\<open>Close\<close> has been called on every
  session that was in the idle list or in the active set of any sub-pool, and
  \<^verbatim>\<open>Stats\<close> has no entry left: read at any device id it gives zero active and zero
  idle connections. No session is opened and the device table is unchanged.
\<close>

theorem ManagerClose_clears:
  "ManagerClose m w = (r, m', w') \<longrightarrow>
     r = None \<and> GetPoolStats m' = []
     \<and> (\<forall>mid. ActiveConnections (statsAt (GetPoolStats m') mid) = 0
              \<and> IdleConnections (statsAt (GetPoolStats m') mid) = 0)
     \<and> (\<forall>mid dp s. map_of (pools (pool m)) mid = Some dp \<and> (s \<in> set (idle dp) \<or> s |\<in>| active dp)
            \<longrightarrow> s \<in> closed w')
     \<and> opens w' = opens w \<and> dev m' = dev m"
proof
  assume a: "ManagerClose m w = (r, m', w')"
  then have w': "w' = snd (forEachPool closeAll (pools (pool m)) w)"
    and m': "m' = m\<lparr>pool := (pool m)\<lparr>pools := []\<rparr>\<rparr>" and r: "r = None"
    by (auto simp: ManagerClose_def PoolClose_def split: prod.splits)
  have st: "GetPoolStats m' = []" by (simp add: m' GetPoolStats_def Stats_def)
  have z: "ActiveConnections (statsAt (GetPoolStats m') mid) = 0
      \<and> IdleConnections (statsAt (GetPoolStats m') mid) = 0" for mid
    by (simp add: st statsAt_def zeroPoolStats_def)
  have cl: "s \<in> closed w'"
    if "map_of (pools (pool m)) mid = Some dp" "s \<in> set (idle dp) \<or> s |\<in>| active dp"
    for mid dp s
  proof -
    have "(mid, dp) \<in> set (pools (pool m))" using that(1) by (rule map_of_SomeD)
    then show ?thesis using that(2) unfolding w' forEachPool_closeAll_closed by auto
  qed
  have o: "opens w' = opens w" by (simp add: w' forEachPool_closeAll_opens)
  have d: "dev m' = dev m" by (simp add: m')
  show "r = None \<and> GetPoolStats m' = []
     \<and> (\<forall>mid. ActiveConnections (statsAt (GetPoolStats m') mid) = 0
              \<and> IdleConnections (statsAt (GetPoolStats m') mid) = 0)
     \<and> (\<forall>mid dp s. map_of (pools (pool m)) mid = Some dp \<and> (s \<in> set (idle dp) \<or> s |\<in>| active dp)
            \<longrightarrow> s \<in> closed w')
     \<and> opens w' = opens w \<and> dev m' = dev m"
    using r st z cl o d by blast
qed

theorem ManagerClose_clears_witness:
  "fst (ManagerClose busyManager world2) = None
   \<and> GetPoolStats (fst (snd (ManagerClose busyManager world2))) = []
   \<and> ActiveConnections (statsAt (GetPoolStats (fst (snd (ManagerClose busyManager world2)))) ''pool-test'') = 0
   \<and> IdleConnections (statsAt (GetPoolStats (fst (snd (ManagerClose busyManager world2)))) ''pool-test'') = 0
   \<and> 0 \<in> closed (snd (snd (ManagerClose busyManager world2)))
   \<and> 1 \<in> closed (snd (snd (ManagerClose busyManager world2)))
   \<and> ActiveConnections (statsAt (GetPoolStats busyManager) ''pool-test'') = 1
   \<and> IdleConnections (statsAt (GetPoolStats busyManager) ''pool-test'') = 1"
proof -
  have b: "pools (pool busyManager) = [(''pool-test'',
     \<lparr>device = poolDevice, idle = [0], active = {|1|}, createdAt = [0 \<mapsto> 0, 1 \<mapsto> 1],
      maxIdle = 5, maxOpen = 10, idleTime = 300000000000\<rparr>)]"
    by (simp add: eval_defs)
  have m: "map_of (pools (pool busyManager)) ''pool-test'' = Some
     \<lparr>device = poolDevice, idle = [0], active = {|1|}, createdAt = [0 \<mapsto> 0, 1 \<mapsto> 1],
      maxIdle = 5, maxOpen = 10, idleTime = 300000000000\<rparr>"
    by (simp add: b)
  have s: "ActiveConnections (statsAt (GetPoolStats busyManager) ''pool-test'') = 1
   \<and> IdleConnections (statsAt (GetPoolStats busyManager) ''pool-test'') = 1"
    by (simp add: GetPoolStats_def statsAt_Stats m statsOf_def fcard_finsert_if fcard_fempty)
  note t = ManagerClose_clears [where m = busyManager and w = world2
        and r = "fst (ManagerClose busyManager world2)" and m' = "fst (snd (ManagerClose busyManager world2))"
        and w' = "snd (snd (ManagerClose busyManager world2))", simplified]
  have q: "s \<in> set (idle dp) \<or> s |\<in>| active dp
      \<Longrightarrow> s \<in> closed (snd (snd (ManagerClose busyManager world2)))"
    if "map_of (pools (pool busyManager)) mid = Some dp" for mid dp s
    using t that by blast
  have c0: "0 \<in> closed (snd (snd (ManagerClose busyManager world2)))"
    using q [OF m, of 0] by simp
  have c1: "1 \<in> closed (snd (snd (ManagerClose busyManager world2)))"
    using q [OF m, of 1] by simp
  show ?thesis using t s c0 c1 by blast
qed

section \<open>Creation timestamps\<close>

lemma dp_run_Nil: "dp_run [] st = st"
  by (simp add: dp_run_def)

lemma dp_run_Cons: "dp_run (op # ops) st = dp_run ops (dp_step st op)"
  by (simp add: dp_run_def)











section \<open>Reuse\<close>












section \<open>Exhaustion\<close>






section \<open>Bounds of a sub-pool\<close>

text \<open>
  From its creation with non-negative limits, and as long as every session returned
  is one that is checked out of this very sub-pool, a sub-pool keeps its bounds.
\<close>

lemma getSession_inv:
  assumes "pool_inv dp" "getSession now dp w = (r, dp', w')"
  shows "pool_inv dp'"
proof (cases "idle dp" rule: rev_cases)
  case Nil
  then show ?thesis using assms
    by (auto simp: pool_inv_def getSession_def fcard_finsert_if split: if_splits sum.splits)
next
  case (snoc ys y)
  then have "dp' = dp\<lparr>idle := ys, active := finsert y (active dp)\<rparr>"
    using assms(2) by (auto simp: getSession_def Let_def)
  then show ?thesis using assms(1) snoc
    by (auto simp: pool_inv_def fcard_finsert_if)
qed

lemma returnSession_inv:
  assumes "pool_inv dp" "s |\<in>| active dp" "returnSession s dp w = (dp', w')"
  shows "pool_inv dp'"
proof -
  have c: "int (fcard (active dp |-| {|s|})) = int (fcard (active dp)) - 1"
    using assms(2) fcard_Suc_fminus1 [of s "active dp"] by simp
  show ?thesis using assms c
    by (auto simp: pool_inv_def returnSession_def Let_def split: if_splits)
qed

lemma cleanExpired_inv:
  assumes "pool_inv dp" "cleanExpired now dp w = (dp', w')"
  shows "pool_inv dp'"
proof -
  have "int (length (filter (unexpired now dp) (idle dp))) \<le> int (length (idle dp))" by simp
  then show ?thesis using assms unfolding pool_inv_def cleanExpired_eq
    by (auto simp del: length_filter_le)
qed

lemma closeAll_inv:
  assumes "pool_inv dp" "closeAll dp w = (dp', w')"
  shows "pool_inv dp'"
  using assms by (auto simp: pool_inv_def closeAll_def fcard_fempty)

lemma dp_step_inv:
  assumes "pool_inv dp" "case op of OpReturn s \<Rightarrow> s |\<in>| active dp | _ \<Rightarrow> True"
    and "dp_step (dp, w) op = (dp', w')"
  shows "pool_inv dp'"
proof (cases op)
  case (OpGet now)
  obtain r where "getSession now dp w = (r, dp', w')"
    using assms(3) OpGet by (cases "getSession now dp w") auto
  then show ?thesis using assms(1) getSession_inv by blast
next
  case (OpReturn s)
  then show ?thesis using assms returnSession_inv [of dp s w dp' w'] by simp
next
  case (OpClean now)
  then show ?thesis using assms cleanExpired_inv [of dp now w dp' w'] by simp
next
  case OpCloseAll
  then show ?thesis using assms closeAll_inv [of dp w dp' w'] by simp
qed

lemma dp_run_inv:
  "pool_inv dp \<Longrightarrow> returns_active ops (dp, w) \<Longrightarrow> dp_run ops (dp, w) = (dp', w') \<Longrightarrow> pool_inv dp'"
proof (induction ops arbitrary: dp w)
  case Nil
  then show ?case by (simp add: dp_run_Nil)
next
  case (Cons op ops)
  obtain dp1 world1 where s: "dp_step (dp, w) op = (dp1, world1)" by (cases "dp_step (dp, w) op")
  have "case op of OpReturn s \<Rightarrow> s |\<in>| active dp | _ \<Rightarrow> True"
    using Cons.prems(2) by (cases op) simp_all
  with Cons.prems(1) have "pool_inv dp1" using s by (rule dp_step_inv)
  then show ?case using Cons.IH [of dp1 world1] Cons.prems by (simp add: dp_run_Cons s)
qed

lemma newDevicePool_inv:
  "0 \<le> poolMaxIdle p \<Longrightarrow> 0 \<le> poolMaxOpen p \<Longrightarrow> pool_inv (newDevicePool d p)"
  by (simp add: pool_inv_def newDevicePool_def fcard_fempty)

lemma pool_inv_bounds:
  "pool_inv dp \<Longrightarrow>
   int (length (idle dp)) \<le> maxIdle dp \<and> int (fcard (active dp)) \<le> maxOpen dp
   \<and> set (idle dp) \<inter> fset (active dp) = {}"
  by (auto simp: pool_inv_def)

lemma subpool_bounds:
  assumes "0 \<le> poolMaxIdle p" "0 \<le> poolMaxOpen p"
    and "returns_active ops (newDevicePool d p, w)"
    and "dp_run ops (newDevicePool d p, w) = (dp', w')"
  shows "int (length (idle dp')) \<le> maxIdle dp' \<and> int (fcard (active dp')) \<le> maxOpen dp'
    \<and> set (idle dp') \<inter> fset (active dp') = {}"
  using dp_run_inv [OF newDevicePool_inv [OF assms(1,2)] assms(3,4)] by (rule pool_inv_bounds)

text \<open>
  C2, on the run \<open>staleTrace\<close>. The first \<^verbatim>\<open>GetSession\<close> yields session 0. The pool
  is closed, a second \<^verbatim>\<open>GetSession\<close> creates the sub-pool anew and opens session 1,
  then session 0 is returned, once: \<^verbatim>\<open>ReturnSession\<close> finds a sub-pool and puts the
  session, already closed, in its idle list. The next \<^verbatim>\<open>GetSession\<close> takes it from
  there, and the sub-pool has two active sessions with \<open>maxOpen = 1\<close>.
\<close>

theorem active_exceeds_maxOpen_after_stale_return:
  "fst (GetSession 0 ''pool-test'' poolDevice stalePool world0) = Inr 0
   \<and> statsAt (Stats (fst (pool_run staleTrace (stalePool, world0)))) ''pool-test''
       = \<lparr>ActiveConnections = 2, IdleConnections = 0, MaxOpen = 1, MaxIdle = 1\<rparr>
   \<and> 0 \<in> closed (snd (pool_run staleTrace (stalePool, world0)))"
  by (simp add: staleTrace_def stalePool_def eval_defs PoolClose_def closeAll_def statsAt_def Stats_def statsOf_def)

end
